theory Spec2Isabelle
  imports Main "HOL-Library.Multiset"
begin

text \<open>
  The event dashboard: an Express server that keeps the schedule, the settings and one
  broadcast message, and React pages that poll it. This theory embeds the server's
  schedule, control and message routes, the countdown and the poll functions of the
  pages, and the drag-and-drop reordering of the admin page, and proves the properties
  stated of them. Each route is a function from the stored state (and the request) to
  the response and the state afterwards; each React handler is a function from the
  page's state to its next state.
\<close>

section \<open>Data model\<close>

text \<open>
  Strings are \<open>string\<close>, lists of 8-bit characters: the model is about ASCII text.
  The server keeps its collections as JavaScript arrays of plain objects. A schedule item
  is the object built by \<^verbatim>\<open>app.post("/api/schedule")\<close>. Two field names are
  suffixed because the plain names are taken: \<open>item_id\<close> is the field \<^verbatim>\<open>id\<close> and
  \<open>item_notes\<close> is the field \<^verbatim>\<open>notes\<close>. Truthiness of \<^verbatim>\<open>is_current\<close> is a
  \<open>bool\<close>.
\<close>

record schedule_item =
  item_id :: string
  title :: string
  description :: string
  start_time :: string
  end_time :: string
  phase_id :: string
  item_notes :: string
  is_current :: bool
  people :: "string list"
  groups :: "string list"

text \<open>
  A request body is a JSON object in which every key may be absent (\<open>None\<close>). The
  handlers read the keys below; \<^verbatim>\<open>{ ...item, ...body }\<close> copies every key that is
  present over the stored item, \<^verbatim>\<open>id\<close> included.
\<close>

record item_body =
  b_id :: "string option"
  b_title :: "string option"
  b_description :: "string option"
  b_start_time :: "string option"
  b_end_time :: "string option"
  b_phase_id :: "string option"
  b_notes :: "string option"
  b_is_current :: "bool option"
  b_people :: "string list option"
  b_groups :: "string list option"

text \<open>
  Failures: \<open>NotFound\<close> is the response with status 404, \<open>ValidationError\<close> the
  response with status 400, \<open>TypeError\<close> the JavaScript exception. \<open>InvalidOrder\<close> is
  the failure that the specification names for a reorder; no source file produces it.
\<close>

datatype error = NotFound | ValidationError | InvalidOrder | TypeError

section \<open>JavaScript array and string helpers\<close>

text \<open>\<^verbatim>\<open>Array.prototype.findIndex\<close>: the first index whose element satisfies the
  predicate, \<open>-1\<close> when there is none.\<close>

fun findIndex :: "('a \<Rightarrow> bool) \<Rightarrow> 'a list \<Rightarrow> int" where
  "findIndex P [] = - 1"
| "findIndex P (x # xs) =
     (if P x then 0 else (let r = findIndex P xs in if r < 0 then - 1 else r + 1))"

text \<open>\<^verbatim>\<open>Array.prototype.find\<close>: the first element that satisfies the predicate,
  \<^verbatim>\<open>undefined\<close> (\<open>None\<close>) when there is none.\<close>

fun js_find :: "('a \<Rightarrow> bool) \<Rightarrow> 'a list \<Rightarrow> 'a option" where
  "js_find P [] = None"
| "js_find P (x # xs) = (if P x then Some x else js_find P xs)"

text \<open>\<^verbatim>\<open>xs.map((s, i) => f(i, s))\<close>, the index counted from \<open>k\<close>.\<close>

fun map_index_from :: "int \<Rightarrow> (int \<Rightarrow> 'a \<Rightarrow> 'b) \<Rightarrow> 'a list \<Rightarrow> 'b list" where
  "map_index_from k f [] = []"
| "map_index_from k f (x # xs) = f k x # map_index_from (k + 1) f xs"

definition map_index :: "(int \<Rightarrow> 'a \<Rightarrow> 'b) \<Rightarrow> 'a list \<Rightarrow> 'b list" where
  "map_index f xs = map_index_from 0 f xs"

text \<open>\<^verbatim>\<open>String(v || d)\<close> for an optional string \<open>v\<close>: absent and empty values are
  falsy.\<close>

definition or_default :: "string option \<Rightarrow> string \<Rightarrow> string" where
  "or_default v d = (case v of None \<Rightarrow> d | Some s \<Rightarrow> if s = [] then d else s)"

definition digit_char :: "nat \<Rightarrow> char" where
  "digit_char d = char_of (48 + d)"

text \<open>\<^verbatim>\<open>String(n)\<close> for a non-negative integer: its decimal digits.\<close>

fun String_of_nat :: "nat \<Rightarrow> string" where
  "String_of_nat n =
     (if n < 10 then [digit_char n] else String_of_nat (n div 10) @ [digit_char (n mod 10)])"

declare String_of_nat.simps [simp del]

text \<open>White space as \<^verbatim>\<open>String.prototype.trim\<close> sees it, on the ASCII range: tab,
  line feed, vertical tab, form feed, carriage return (codes 9 to 13) and space (32).\<close>

definition is_space :: "char \<Rightarrow> bool" where
  "is_space c = (let n = (of_char c :: nat) in n = 32 \<or> (9 \<le> n \<and> n \<le> 13))"

definition js_trim :: "string \<Rightarrow> string" where
  "js_trim s = rev (dropWhile is_space (rev (dropWhile is_space s)))"

section \<open>Server: schedule routes\<close>

text \<open>\<^verbatim>\<open>function id() { return String(Date.now()); }\<close> The clock reading is an
  argument of every handler that reads the clock.\<close>

definition new_id :: "nat \<Rightarrow> string" where
  "new_id now = String_of_nat now"

text \<open>\<^verbatim>\<open>app.post("/api/schedule")\<close>: returns the created item and the new array.\<close>

definition post_schedule ::
  "nat \<Rightarrow> item_body \<Rightarrow> schedule_item list \<Rightarrow> schedule_item \<times> schedule_item list" where
  "post_schedule now body schedule =
     (let item = \<lparr> item_id = new_id now,
                   title = or_default (b_title body) ''Eintrag'',
                   description = or_default (b_description body) '''',
                   start_time = or_default (b_start_time body) ''00:00'',
                   end_time = or_default (b_end_time body) ''00:00'',
                   phase_id = or_default (b_phase_id body) '''',
                   item_notes = or_default (b_notes body) '''',
                   is_current = (case b_is_current body of None \<Rightarrow> False | Some v \<Rightarrow> v),
                   people = (case b_people body of None \<Rightarrow> [] | Some v \<Rightarrow> v),
                   groups = (case b_groups body of None \<Rightarrow> [] | Some v \<Rightarrow> v) \<rparr>;
          schedule1 = (if is_current item
                       then map (\<lambda>x. x\<lparr>is_current := False\<rparr>) schedule else schedule)
      in (item, schedule1 @ [item]))"

text \<open>\<^verbatim>\<open>{ ...x, ...body }\<close>\<close>

definition merge_body :: "schedule_item \<Rightarrow> item_body \<Rightarrow> schedule_item" where
  "merge_body x b =
     \<lparr> item_id = (case b_id b of None \<Rightarrow> item_id x | Some v \<Rightarrow> v),
       title = (case b_title b of None \<Rightarrow> title x | Some v \<Rightarrow> v),
       description = (case b_description b of None \<Rightarrow> description x | Some v \<Rightarrow> v),
       start_time = (case b_start_time b of None \<Rightarrow> start_time x | Some v \<Rightarrow> v),
       end_time = (case b_end_time b of None \<Rightarrow> end_time x | Some v \<Rightarrow> v),
       phase_id = (case b_phase_id b of None \<Rightarrow> phase_id x | Some v \<Rightarrow> v),
       item_notes = (case b_notes b of None \<Rightarrow> item_notes x | Some v \<Rightarrow> v),
       is_current = (case b_is_current b of None \<Rightarrow> is_current x | Some v \<Rightarrow> v),
       people = (case b_people b of None \<Rightarrow> people x | Some v \<Rightarrow> v),
       groups = (case b_groups b of None \<Rightarrow> groups x | Some v \<Rightarrow> v) \<rparr>"

text \<open>\<^verbatim>\<open>app.put("/api/schedule/:id")\<close>: the response (an error, or the item sent
  back) and the array afterwards. When the merged item is current, only the flags are
  rewritten, by comparing ids with \<^verbatim>\<open>:id\<close>; otherwise the merged item is stored at
  the index found.\<close>

definition put_schedule ::
  "string \<Rightarrow> item_body \<Rightarrow> schedule_item list
     \<Rightarrow> (error + schedule_item option) \<times> schedule_item list" where
  "put_schedule sid body schedule =
     (let i = findIndex (\<lambda>s. item_id s = sid) schedule in
      if i = - 1 then (Inl NotFound, schedule)
      else
        let next = merge_body (schedule ! nat i) body in
        if is_current next then
          (let schedule1 = map (\<lambda>x. x\<lparr>is_current := (item_id x = sid)\<rparr>) schedule
           in (Inr (js_find (\<lambda>x. item_id x = sid) schedule1), schedule1))
        else
          (let schedule1 = schedule[nat i := next]
           in (Inr (Some (schedule1 ! nat i)), schedule1)))"

text \<open>\<^verbatim>\<open>app.delete("/api/schedule/:id")\<close>\<close>

definition delete_schedule :: "string \<Rightarrow> schedule_item list \<Rightarrow> schedule_item list" where
  "delete_schedule sid schedule = filter (\<lambda>s. item_id s \<noteq> sid) schedule"

section \<open>Server: control routes\<close>

definition getCurrentIndex :: "schedule_item list \<Rightarrow> int" where
  "getCurrentIndex schedule = findIndex is_current schedule"

text \<open>\<^verbatim>\<open>app.post("/api/control/clear-current")\<close>\<close>

definition control_clear_current :: "schedule_item list \<Rightarrow> schedule_item list" where
  "control_clear_current schedule = map (\<lambda>s. s\<lparr>is_current := False\<rparr>) schedule"

text \<open>\<^verbatim>\<open>app.post("/api/control/set-current/:id")\<close>: the response and the array
  afterwards.\<close>

definition control_set_current ::
  "string \<Rightarrow> schedule_item list \<Rightarrow> (error + unit) \<times> schedule_item list" where
  "control_set_current sid schedule =
     (let exists = list_ex (\<lambda>s. item_id s = sid) schedule in
      if \<not> exists then (Inl NotFound, schedule)
      else (Inr (), map (\<lambda>s. s\<lparr>is_current := (item_id s = sid)\<rparr>) schedule))"

text \<open>\<^verbatim>\<open>app.post("/api/control/next")\<close>\<close>

definition control_next :: "schedule_item list \<Rightarrow> schedule_item list" where
  "control_next schedule =
     (let idx = getCurrentIndex schedule;
          nextIdx = (if idx < 0 then 0 else min (int (length schedule) - 1) (idx + 1))
      in map_index (\<lambda>i s. s\<lparr>is_current := (i = nextIdx)\<rparr>) schedule)"

text \<open>\<^verbatim>\<open>app.post("/api/control/previous")\<close>\<close>

definition control_previous :: "schedule_item list \<Rightarrow> schedule_item list" where
  "control_previous schedule =
     (let idx = getCurrentIndex schedule;
          prevIdx = (if idx \<le> 0 then 0 else idx - 1)
      in map_index (\<lambda>i s. s\<lparr>is_current := (i = prevIdx)\<rparr>) schedule)"

text \<open>A sequence of \<^verbatim>\<open>next\<close> and \<^verbatim>\<open>previous\<close> requests, handled one after the
  other.\<close>

datatype control = Next | Previous

fun run_controls :: "control list \<Rightarrow> schedule_item list \<Rightarrow> schedule_item list" where
  "run_controls [] schedule = schedule"
| "run_controls (Next # cs) schedule = run_controls cs (control_next schedule)"
| "run_controls (Previous # cs) schedule = run_controls cs (control_previous schedule)"

text \<open>Example items for the closed statements below.\<close>

definition mk_item :: "string \<Rightarrow> string \<Rightarrow> bool \<Rightarrow> schedule_item" where
  "mk_item i e c =
     \<lparr> item_id = i, title = ''Eintrag'', description = '''', start_time = ''00:00'',
       end_time = e, phase_id = '''', item_notes = '''', is_current = c,
       people = [], groups = [] \<rparr>"

definition empty_body :: item_body where
  "empty_body =
     \<lparr> b_id = None, b_title = None, b_description = None, b_start_time = None,
       b_end_time = None, b_phase_id = None, b_notes = None, b_is_current = None,
       b_people = None, b_groups = None \<rparr>"

definition schedule_ABC :: "schedule_item list" where
  "schedule_ABC =
     [mk_item ''A'' ''10:00'' False, mk_item ''B'' ''11:00'' False, mk_item ''C'' ''12:00'' False]"

section \<open>Server: message routes\<close>

text \<open>The single message object; \<open>msg_id\<close> and \<open>msg_text\<close> are the fields
  \<^verbatim>\<open>id\<close> and \<^verbatim>\<open>text\<close>, and \<open>None\<close> is \<^verbatim>\<open>null\<close>.\<close>

record message =
  msg_id :: "nat option"
  msg_text :: string
  active :: bool
  created :: "string option"
  acked_by :: "string list"

definition defaultMessage :: message where
  "defaultMessage =
     \<lparr> msg_id = None, msg_text = '''', active = False, created = None, acked_by = [] \<rparr>"

text \<open>\<^verbatim>\<open>app.get("/api/message")\<close>: what the client with the given
  \<^verbatim>\<open>client_id\<close> query parameter is sent. The stored message is not changed.\<close>

definition get_message :: "string option \<Rightarrow> message \<Rightarrow> message" where
  "get_message client_id message =
     (let clientId = or_default client_id '''' in
      if \<not> active message then message
      else if clientId \<noteq> [] \<and> clientId \<in> set (acked_by message)
        then message\<lparr>active := False\<rparr>
      else message)"

text \<open>\<^verbatim>\<open>app.post("/api/message")\<close>: \<open>now\<close> is \<^verbatim>\<open>Date.now()\<close> and \<open>stamp\<close>
  is \<^verbatim>\<open>nowIso()\<close>. The response and the stored message afterwards.\<close>

definition post_message ::
  "nat \<Rightarrow> string \<Rightarrow> string option \<Rightarrow> message \<Rightarrow> (error + message) \<times> message" where
  "post_message now stamp text_field message =
     (case text_field of
        None \<Rightarrow> (Inl ValidationError, message)
      | Some t \<Rightarrow>
          if t = [] \<or> js_trim t = [] then (Inl ValidationError, message)
          else
            (let message1 = \<lparr> msg_id = Some now, msg_text = js_trim t, active = True,
                              created = Some stamp, acked_by = [] \<rparr>
             in (Inr message1, message1)))"

text \<open>\<^verbatim>\<open>app.post("/api/message/ack")\<close>\<close>

definition post_message_ack ::
  "string option \<Rightarrow> message \<Rightarrow> (error + unit) \<times> message" where
  "post_message_ack client_id message =
     (let cid = js_trim (or_default client_id '''') in
      if cid = [] then (Inl ValidationError, message)
      else (Inr (),
            if cid \<in> set (acked_by message) then message
            else message\<lparr>acked_by := acked_by message @ [cid]\<rparr>))"

text \<open>\<^verbatim>\<open>app.post("/api/message/clear")\<close>\<close>

definition post_message_clear :: "message \<Rightarrow> message" where
  "post_message_clear message = message\<lparr>active := False\<rparr>"

text \<open>Requests to the message routes that change the stored message, and the state
  after a sequence of them.\<close>

datatype message_request = Post nat string "string option" | Ack "string option" | Clear

fun message_step :: "message_request \<Rightarrow> message \<Rightarrow> message" where
  "message_step (Post now stamp t) m = snd (post_message now stamp t m)"
| "message_step (Ack c) m = snd (post_message_ack c m)"
| "message_step Clear m = post_message_clear m"

fun run_messages :: "message_request list \<Rightarrow> message \<Rightarrow> message" where
  "run_messages [] m = m"
| "run_messages (r # rs) m = run_messages rs (message_step r m)"

section \<open>Clients: the countdown\<close>

record countdown =
  hours :: int
  minutes :: int
  seconds :: int

definition zero_countdown :: countdown where
  "zero_countdown = \<lparr> hours = 0, minutes = 0, seconds = 0 \<rparr>"

record settings =
  event_name :: string
  event_date :: string
  background_color :: string
  surface_color :: string
  text_color :: string
  primary_color :: string
  accent_color :: string
  is_paused :: bool
  show_countdown :: bool
  auto_scroll :: bool

text \<open>The fallback of the viewer page.\<close>

definition DEFAULT_SETTINGS :: settings where
  "DEFAULT_SETTINGS =
     \<lparr> event_name = ''Event'', event_date = '''', background_color = ''#0b0f1a'',
       surface_color = ''#111827'', text_color = ''#e5e7eb'', primary_color = ''#7c3aed'',
       accent_color = ''#22c55e'', is_paused = False, show_countdown = True,
       auto_scroll = True \<rparr>"

text \<open>\<^verbatim>\<open>s.split(sep)\<close> for a one-character separator: never the empty array.\<close>

fun js_split :: "char \<Rightarrow> string \<Rightarrow> string list" where
  "js_split sep [] = [[]]"
| "js_split sep (c # cs) =
     (if c = sep then [] # js_split sep cs
      else (case js_split sep cs of [] \<Rightarrow> [[c]] | p # ps \<Rightarrow> (c # p) # ps))"

text \<open>
  The value of \<^verbatim>\<open>Number(s)\<close> as \<^verbatim>\<open>setHours\<close> uses it. The strings read here are
  those made of decimal digits, white space around them allowed, and the blank string,
  which is \<open>0\<close>. Every other string is \<open>NaN\<close> in this model; JavaScript also reads
  signed, fractional, exponent, radix-prefixed and \<^verbatim>\<open>Infinity\<close> literals as numbers,
  and those are outside the model.
\<close>

datatype jsnum = NaN | Num int

definition is_digit :: "char \<Rightarrow> bool" where
  "is_digit c = (48 \<le> (of_char c :: nat) \<and> (of_char c :: nat) \<le> 57)"

definition digits_value :: "string \<Rightarrow> nat" where
  "digits_value s = foldl (\<lambda>a c. a * 10 + (of_char c - 48)) 0 s"

definition js_Number :: "string \<Rightarrow> jsnum" where
  "js_Number s =
     (let t = js_trim s in
      if t = [] then Num 0
      else if list_all is_digit t then Num (int (digits_value t))
      else NaN)"

text \<open>\<^verbatim>\<open>x || 0\<close> for a destructured array element: \<^verbatim>\<open>undefined\<close> (\<open>None\<close>),
  \<open>NaN\<close> and \<open>0\<close> are falsy.\<close>

definition num_or_0 :: "jsnum option \<Rightarrow> int" where
  "num_or_0 x = (case x of None \<Rightarrow> 0 | Some NaN \<Rightarrow> 0 | Some (Num n) \<Rightarrow> n)"

definition nth_opt :: "'a list \<Rightarrow> nat \<Rightarrow> 'a option" where
  "nth_opt xs i = (if i < length xs then Some (xs ! i) else None)"

text \<open>
  The clock is an argument. \<open>now\<close> is \<^verbatim>\<open>new Date().getTime()\<close>, in milliseconds.
  \<open>setHours h m\<close> is the time value of \<^verbatim>\<open>endTime\<close> after
  \<^verbatim>\<open>endTime = new Date(); endTime.setHours(h, m, 0, 0)\<close>: the instant at which the
  local clock shows \<open>h:m:00.000\<close> on the current local day, \<open>None\<close> when the date is
  invalid (its time value is \<open>NaN\<close>, and then \<^verbatim>\<open>diff > 0\<close> is false).
  The local calendar belongs to the JavaScript runtime, so it is a parameter.
\<close>

text \<open>\<^verbatim>\<open>calculateCountdown\<close> of \<^verbatim>\<open>ViewerDashboard.jsx\<close>: the value passed to
  \<^verbatim>\<open>setCountdown\<close>. The page reads \<^verbatim>\<open>s = settings || DEFAULT_SETTINGS\<close>.\<close>

definition viewer_calculateCountdown ::
  "(int \<Rightarrow> int \<Rightarrow> int option) \<Rightarrow> int \<Rightarrow> settings option \<Rightarrow> schedule_item list \<Rightarrow> countdown" where
  "viewer_calculateCountdown setHours now settings_opt schedule =
     (let s = (case settings_opt of None \<Rightarrow> DEFAULT_SETTINGS | Some v \<Rightarrow> v) in
      case js_find is_current schedule of
        None \<Rightarrow> \<lparr> hours = 0, minutes = 0, seconds = 0 \<rparr>
      | Some currentItem \<Rightarrow>
          if is_paused s then \<lparr> hours = 0, minutes = 0, seconds = 0 \<rparr>
          else
            (let parts = map js_Number
                  (js_split CHR '':'' (or_default (Some (end_time currentItem)) ''00:00''));
                endHours = nth_opt parts 0;
                endMinutes = nth_opt parts 1
            in (case setHours (num_or_0 endHours) (num_or_0 endMinutes) of
                 None \<Rightarrow> \<lparr> hours = 0, minutes = 0, seconds = 0 \<rparr>
               | Some endTime \<Rightarrow>
                   (let diff = endTime - now in
                   if diff > 0 then
                     \<lparr> hours = diff div (1000 * 60 * 60),
                       minutes = (diff mod (1000 * 60 * 60)) div (1000 * 60),
                       seconds = (diff mod (1000 * 60)) div 1000 \<rparr>
                   else \<lparr> hours = 0, minutes = 0, seconds = 0 \<rparr>))))"

text \<open>\<^verbatim>\<open>calculateCountdown\<close> of \<^verbatim>\<open>CrewDashboard.jsx\<close>; it reads
  \<^verbatim>\<open>settings.is_paused\<close>.\<close>

definition crew_calculateCountdown ::
  "(int \<Rightarrow> int \<Rightarrow> int option) \<Rightarrow> int \<Rightarrow> settings \<Rightarrow> schedule_item list \<Rightarrow> countdown" where
  "crew_calculateCountdown setHours now settings schedule =
     (case js_find is_current schedule of
        None \<Rightarrow> \<lparr> hours = 0, minutes = 0, seconds = 0 \<rparr>
      | Some currentItem \<Rightarrow>
          if is_paused settings then \<lparr> hours = 0, minutes = 0, seconds = 0 \<rparr>
          else
            (let parts = map js_Number
                  (js_split CHR '':'' (or_default (Some (end_time currentItem)) ''00:00''));
                endHours = nth_opt parts 0;
                endMinutes = nth_opt parts 1
            in (case setHours (num_or_0 endHours) (num_or_0 endMinutes) of
                 None \<Rightarrow> \<lparr> hours = 0, minutes = 0, seconds = 0 \<rparr>
               | Some endTime \<Rightarrow>
                   (let diff = endTime - now in
                   if diff > 0 then
                     \<lparr> hours = diff div (1000 * 60 * 60),
                       minutes = (diff mod (1000 * 60 * 60)) div (1000 * 60),
                       seconds = (diff mod (1000 * 60)) div 1000 \<rparr>
                   else \<lparr> hours = 0, minutes = 0, seconds = 0 \<rparr>))))"

text \<open>\<^verbatim>\<open>calculateCountdown\<close> of \<^verbatim>\<open>CurrentOnlyDashboard.jsx\<close>\<close>

definition current_only_calculateCountdown ::
  "(int \<Rightarrow> int \<Rightarrow> int option) \<Rightarrow> int \<Rightarrow> settings \<Rightarrow> schedule_item list \<Rightarrow> countdown" where
  "current_only_calculateCountdown setHours now settings schedule =
     (case js_find is_current schedule of
        None \<Rightarrow> \<lparr> hours = 0, minutes = 0, seconds = 0 \<rparr>
      | Some currentItem \<Rightarrow>
          if is_paused settings then \<lparr> hours = 0, minutes = 0, seconds = 0 \<rparr>
          else
            (let parts = map js_Number
                  (js_split CHR '':'' (or_default (Some (end_time currentItem)) ''00:00''));
                endHours = nth_opt parts 0;
                endMinutes = nth_opt parts 1
            in (case setHours (num_or_0 endHours) (num_or_0 endMinutes) of
                 None \<Rightarrow> \<lparr> hours = 0, minutes = 0, seconds = 0 \<rparr>
               | Some endTime \<Rightarrow>
                   (let diff = endTime - now in
                   if diff > 0 then
                     \<lparr> hours = diff div (1000 * 60 * 60),
                       minutes = (diff mod (1000 * 60 * 60)) div (1000 * 60),
                       seconds = (diff mod (1000 * 60)) div 1000 \<rparr>
                   else \<lparr> hours = 0, minutes = 0, seconds = 0 \<rparr>))))"

text \<open>\<^verbatim>\<open>calculateCountdown\<close> of \<^verbatim>\<open>admin/AdminOverview.jsx\<close>\<close>

definition admin_calculateCountdown ::
  "(int \<Rightarrow> int \<Rightarrow> int option) \<Rightarrow> int \<Rightarrow> settings \<Rightarrow> schedule_item list \<Rightarrow> countdown" where
  "admin_calculateCountdown setHours now settings schedule =
     (case js_find is_current schedule of
        None \<Rightarrow> \<lparr> hours = 0, minutes = 0, seconds = 0 \<rparr>
      | Some currentItem \<Rightarrow>
          if is_paused settings then \<lparr> hours = 0, minutes = 0, seconds = 0 \<rparr>
          else
            (let parts = map js_Number
                  (js_split CHR '':'' (or_default (Some (end_time currentItem)) ''00:00''));
                endHours = nth_opt parts 0;
                endMinutes = nth_opt parts 1
            in (case setHours (num_or_0 endHours) (num_or_0 endMinutes) of
                 None \<Rightarrow> \<lparr> hours = 0, minutes = 0, seconds = 0 \<rparr>
               | Some endTime \<Rightarrow>
                   (let diff = endTime - now in
                   if diff > 0 then
                     \<lparr> hours = diff div (1000 * 60 * 60),
                       minutes = (diff mod (1000 * 60 * 60)) div (1000 * 60),
                       seconds = (diff mod (1000 * 60)) div 1000 \<rparr>
                   else \<lparr> hours = 0, minutes = 0, seconds = 0 \<rparr>))))"

text \<open>The statement side of the countdown: an \<^verbatim>\<open>HH:MM\<close> string, the countdown in
  whole seconds, and a runtime whose local day starts at \<open>midnight\<close> and has no change
  of clock offset (dates beyond the range of \<^verbatim>\<open>Date\<close> are invalid).\<close>

definition hhmm :: "nat \<Rightarrow> nat \<Rightarrow> string" where
  "hhmm h m =
     [digit_char (h div 10), digit_char (h mod 10), CHR '':'',
      digit_char (m div 10), digit_char (m mod 10)]"

definition total_seconds :: "countdown \<Rightarrow> int" where
  "total_seconds c = hours c * 3600 + minutes c * 60 + seconds c"

definition plain_day :: "int \<Rightarrow> int \<Rightarrow> int \<Rightarrow> int option" where
  "plain_day midnight h m =
     (let t = midnight + h * 3600000 + m * 60000 in
      if \<bar>t\<bar> > 8640000000000000 then None else Some t)"

section \<open>Clients: polling\<close>

text \<open>
  The outcome of one \<^verbatim>\<open>axios.get\<close>: the promise is rejected, or fulfilled with
  \<^verbatim>\<open>response.data\<close>. For the collections the data is an array (\<open>Some\<close>) or not
  (\<open>None\<close>: for the viewer anything that is not an array, for the crew page a falsy
  value); for the settings it is the settings object or \<^verbatim>\<open>null\<close>.
\<close>

datatype 'a response = Rejected | Fulfilled 'a

record phase =
  ph_id :: string
  ph_name :: string
  ph_color :: string

record person =
  pe_id :: string
  pe_name :: string

record crew_group =
  gr_id :: string
  gr_name :: string

text \<open>The state of \<^verbatim>\<open>ViewerDashboard\<close> that its poll functions write.\<close>

record viewer_state =
  v_schedule :: "schedule_item list"
  v_phases :: "phase list"
  v_message :: "message option"
  v_showPopup :: bool

text \<open>\<^verbatim>\<open>fetchData\<close> of \<^verbatim>\<open>ViewerDashboard.jsx\<close>: \<^verbatim>\<open>Promise.all\<close> rejects as
  soon as one request is rejected, and the \<^verbatim>\<open>catch\<close> branch only logs.\<close>

definition viewer_fetchData ::
  "schedule_item list option response \<Rightarrow> phase list option response
     \<Rightarrow> viewer_state \<Rightarrow> viewer_state" where
  "viewer_fetchData scheduleRes phasesRes st =
     (case scheduleRes of
        Rejected \<Rightarrow> st
      | Fulfilled sd \<Rightarrow>
          (case phasesRes of
             Rejected \<Rightarrow> st
           | Fulfilled pd \<Rightarrow>
               st\<lparr> v_schedule := (case sd of Some xs \<Rightarrow> xs | None \<Rightarrow> []),
                   v_phases := (case pd of Some xs \<Rightarrow> xs | None \<Rightarrow> []) \<rparr>))"

text \<open>The state of \<^verbatim>\<open>CrewDashboard\<close> that \<^verbatim>\<open>fetchData\<close> writes.\<close>

record crew_state =
  c_schedule :: "schedule_item list"
  c_phases :: "phase list"
  c_people :: "person list"
  c_groups :: "crew_group list"

text \<open>\<^verbatim>\<open>fetchData\<close> of \<^verbatim>\<open>CrewDashboard.jsx\<close>: \<^verbatim>\<open>Promise.allSettled\<close> never
  rejects; each fulfilled request writes its own collection.\<close>

definition crew_fetchData ::
  "schedule_item list option response \<Rightarrow> phase list option response
     \<Rightarrow> person list option response \<Rightarrow> crew_group list option response
     \<Rightarrow> crew_state \<Rightarrow> crew_state" where
  "crew_fetchData scheduleRes phasesRes peopleRes groupsRes st =
     (let st1 = (case scheduleRes of Rejected \<Rightarrow> st
                 | Fulfilled d \<Rightarrow> st\<lparr>c_schedule := (case d of Some xs \<Rightarrow> xs | None \<Rightarrow> [])\<rparr>);
          st2 = (case phasesRes of Rejected \<Rightarrow> st1
                 | Fulfilled d \<Rightarrow> st1\<lparr>c_phases := (case d of Some xs \<Rightarrow> xs | None \<Rightarrow> [])\<rparr>);
          st3 = (case peopleRes of Rejected \<Rightarrow> st2
                 | Fulfilled d \<Rightarrow> st2\<lparr>c_people := (case d of Some xs \<Rightarrow> xs | None \<Rightarrow> [])\<rparr>);
          st4 = (case groupsRes of Rejected \<Rightarrow> st3
                 | Fulfilled d \<Rightarrow> st3\<lparr>c_groups := (case d of Some xs \<Rightarrow> xs | None \<Rightarrow> [])\<rparr>)
      in st4)"

text \<open>The state of \<^verbatim>\<open>ThemeProvider\<close>.\<close>

record theme_state =
  t_settings :: "settings option"
  t_loading :: bool

text \<open>\<^verbatim>\<open>fetchSettings\<close> of \<^verbatim>\<open>ThemeContext.jsx\<close>: the \<^verbatim>\<open>finally\<close> block runs
  \<^verbatim>\<open>setLoading(false)\<close> on both paths.\<close>

definition fetchSettings :: "settings option response \<Rightarrow> theme_state \<Rightarrow> theme_state" where
  "fetchSettings res st =
     (let st1 = (case res of Rejected \<Rightarrow> st | Fulfilled d \<Rightarrow> st\<lparr>t_settings := d\<rparr>)
      in st1\<lparr>t_loading := False\<rparr>)"

section \<open>Admin client: reordering by drag and drop\<close>

text \<open>
  \<^verbatim>\<open>arrayMove\<close> is imported from the library \<^verbatim>\<open>@dnd-kit/sortable\<close>, whose source is
  \<^verbatim>\<open>const a = array.slice(); a.splice(to < 0 ? a.length + to : to, 0, a.splice(from, 1)[0]); return a\<close>.
  Array elements are \<open>'a option\<close>, \<open>None\<close> being \<^verbatim>\<open>undefined\<close>, which is what
  \<^verbatim>\<open>splice(from, 1)[0]\<close> is when nothing was removed.
\<close>

text \<open>The start index of \<^verbatim>\<open>splice\<close> on an array of length \<open>len\<close>.\<close>

definition splice_start :: "int \<Rightarrow> nat \<Rightarrow> nat" where
  "splice_start i len =
     (if i < 0 then nat (max (int len + i) 0) else nat (min i (int len)))"

definition arrayMove :: "'a option list \<Rightarrow> int \<Rightarrow> int \<Rightarrow> 'a option list" where
  "arrayMove array from to =
     (let to1 = (if to < 0 then int (length array) + to else to);
          s = splice_start from (length array);
          removed = (if s < length array then array ! s else None);
          rest = take s array @ drop (s + 1) array;
          s2 = splice_start to1 (length rest)
      in take s2 rest @ [removed] @ drop s2 rest)"

text \<open>The drag event: \<^verbatim>\<open>active.id\<close> and, when the item was dropped on a target,
  \<^verbatim>\<open>over.id\<close>.\<close>

record drag_event =
  active_id :: string
  over_id :: "string option"

text \<open>
  \<^verbatim>\<open>handleDragEnd\<close> of \<^verbatim>\<open>admin/AdminSchedule.jsx\<close>: the new value of the
  \<^verbatim>\<open>schedule\<close> state and the \<^verbatim>\<open>order\<close> array of the
  \<^verbatim>\<open>PUT /schedule/reorder\<close> request, if one is sent. When \<^verbatim>\<open>newOrder\<close> holds
  \<^verbatim>\<open>undefined\<close>, \<^verbatim>\<open>newOrder.map(i => i.id)\<close> throws.
\<close>

definition handleDragEnd ::
  "drag_event \<Rightarrow> schedule_item list
     \<Rightarrow> error + (schedule_item list \<times> string list option)" where
  "handleDragEnd event schedule =
     (case over_id event of
        None \<Rightarrow> Inr (schedule, None)
      | Some over \<Rightarrow>
          if active_id event = over then Inr (schedule, None)
          else
            (let oldIndex = findIndex (\<lambda>i. item_id i = active_id event) schedule;
                 newIndex = findIndex (\<lambda>i. item_id i = over) schedule;
                 newOrder = arrayMove (map Some schedule) oldIndex newIndex
             in if list_ex (\<lambda>x. x = None) newOrder then Inl TypeError
                else Inr (List.map_filter (\<lambda>x. x) newOrder,
                          Some (map item_id (List.map_filter (\<lambda>x. x) newOrder)))))"

section \<open>Server: the reorder request\<close>


text \<open>The number of current items.\<close>

definition current_count :: "schedule_item list \<Rightarrow> nat" where
  "current_count schedule = length (filter is_current schedule)"

text \<open>More example values for the closed statements below.\<close>

definition acked_message :: message where
  "acked_message =
     \<lparr> msg_id = Some 1, msg_text = ''Pause'', active = True,
       created = Some ''2026-01-11T10:00:00.000Z'', acked_by = [''X''] \<rparr>"

definition schedule_live :: "schedule_item list" where
  "schedule_live =
     [mk_item ''A'' ''10:00'' False, mk_item ''B'' ''11:00'' True, mk_item ''C'' ''12:00'' False]"

definition running :: settings where
  "running = DEFAULT_SETTINGS"

definition theme_start :: theme_state where
  "theme_start = \<lparr> t_settings = Some DEFAULT_SETTINGS, t_loading = True \<rparr>"

definition crew_shown :: crew_state where
  "crew_shown = \<lparr> c_schedule = schedule_live, c_phases = [], c_people = [], c_groups = [] \<rparr>"

definition viewer_shown :: viewer_state where
  "viewer_shown =
     \<lparr> v_schedule = schedule_live, v_phases = [], v_message = None, v_showPopup = False \<rparr>"

definition phase_show :: phase where
  "phase_show = \<lparr> ph_id = ''1'', ph_name = ''Show'', ph_color = ''#71717a'' \<rparr>"




text \<open>Two readings of \<^verbatim>\<open>Date.now()\<close>, one millisecond apart, and two request
  sequences on the empty schedule: two items created at the same reading; and two items
  created at different readings, the second then updated with a body that carries the
  id of the first.\<close>

definition clock_a :: nat where
  "clock_a = 1768127415500"

definition clock_b :: nat where
  "clock_b = 1768127415501"

definition created_same_clock :: "schedule_item list" where
  "created_same_clock =
     snd (post_schedule clock_a empty_body (snd (post_schedule clock_a empty_body [])))"

definition created_then_edited :: "schedule_item list" where
  "created_then_edited =
     snd (put_schedule (new_id clock_b) (empty_body\<lparr>b_id := Some (new_id clock_a)\<rparr>)
            (snd (post_schedule clock_b empty_body (snd (post_schedule clock_a empty_body [])))))"

section \<open>Control state machine: bounds of the current index\<close>

lemma findIndex_bounds: "- 1 \<le> findIndex P xs \<and> findIndex P xs < int (length xs)"
  by (induction xs) (auto simp: Let_def)

lemma length_map_index_from [simp]: "length (map_index_from k f xs) = length xs"
  by (induction xs arbitrary: k) auto

lemma findIndex_flag_at:
  "findIndex is_current (map_index_from j (\<lambda>i s. s\<lparr>is_current := (i = k)\<rparr>) xs) =
     (if j \<le> k \<and> k < j + int (length xs) then k - j else - 1)"
proof (induction xs arbitrary: j)
  case Nil
  show ?case by simp
next
  case (Cons x xs)
  show ?case
  proof (cases "j = k")
    case True
    then show ?thesis by simp
  next
    case False
    then show ?thesis using Cons.IH [of "j + 1"] by (auto simp: Let_def)
  qed
qed

lemma getCurrentIndex_set_at:
  assumes "0 \<le> k" and "k < int (length xs)"
  shows "getCurrentIndex (map_index (\<lambda>i s. s\<lparr>is_current := (i = k)\<rparr>) xs) = k"
  using assms by (simp add: getCurrentIndex_def map_index_def findIndex_flag_at)

lemma getCurrentIndex_bounds:
  "- 1 \<le> getCurrentIndex xs \<and> getCurrentIndex xs < int (length xs)"
  by (simp add: getCurrentIndex_def findIndex_bounds)

lemma length_control_next [simp]: "length (control_next xs) = length xs"
  by (simp add: control_next_def map_index_def Let_def)

lemma length_control_previous [simp]: "length (control_previous xs) = length xs"
  by (simp add: control_previous_def map_index_def Let_def)

lemma getCurrentIndex_next:
  assumes "xs \<noteq> []"
  shows "getCurrentIndex (control_next xs) =
     (if getCurrentIndex xs < 0 then 0
      else min (int (length xs) - 1) (getCurrentIndex xs + 1))"
proof -
  let ?k = "if getCurrentIndex xs < 0 then 0
            else min (int (length xs) - 1) (getCurrentIndex xs + 1)"
  from assms have len: "0 < int (length xs)" by simp
  have "0 \<le> ?k \<and> ?k < int (length xs)"
    using getCurrentIndex_bounds [of xs] len by auto
  then have "getCurrentIndex (map_index (\<lambda>i s. s\<lparr>is_current := (i = ?k)\<rparr>) xs) = ?k"
    using getCurrentIndex_set_at by blast
  then show ?thesis by (simp add: control_next_def Let_def)
qed

lemma getCurrentIndex_previous:
  assumes "xs \<noteq> []"
  shows "getCurrentIndex (control_previous xs) =
     (if getCurrentIndex xs \<le> 0 then 0 else getCurrentIndex xs - 1)"
proof -
  let ?k = "if getCurrentIndex xs \<le> 0 then 0 else getCurrentIndex xs - 1"
  from assms have len: "0 < int (length xs)" by simp
  have "0 \<le> ?k \<and> ?k < int (length xs)"
    using getCurrentIndex_bounds [of xs] len by auto
  then have "getCurrentIndex (map_index (\<lambda>i s. s\<lparr>is_current := (i = ?k)\<rparr>) xs) = ?k"
    using getCurrentIndex_set_at by blast
  then show ?thesis by (simp add: control_previous_def Let_def)
qed

lemma length_run_controls [simp]: "length (run_controls cs xs) = length xs"
  by (induction cs xs rule: run_controls.induct) auto

lemma control_next_index_nonneg:
  assumes "xs \<noteq> []"
  shows "0 \<le> getCurrentIndex (control_next xs)"
proof -
  from assms have "0 < int (length xs)" by simp
  then show ?thesis using getCurrentIndex_next [OF assms] by simp
qed

lemma control_previous_index_nonneg:
  assumes "xs \<noteq> []"
  shows "0 \<le> getCurrentIndex (control_previous xs)"
  using getCurrentIndex_previous [OF assms] by simp

lemma run_controls_keeps_index:
  assumes "xs \<noteq> []" and "0 \<le> getCurrentIndex xs"
  shows "0 \<le> getCurrentIndex (run_controls cs xs)"
  using assms
proof (induction cs arbitrary: xs)
  case Nil
  then show ?case by simp
next
  case (Cons c cs)
  show ?case
  proof (cases c)
    case Next
    have "control_next xs \<noteq> []"
      using Cons.prems(1) by (metis length_control_next length_0_conv)
    then show ?thesis
      using Cons.IH control_next_index_nonneg [OF Cons.prems(1)] Next by simp
  next
    case Previous
    have "control_previous xs \<noteq> []"
      using Cons.prems(1) by (metis length_control_previous length_0_conv)
    then show ?thesis
      using Cons.IH control_previous_index_nonneg [OF Cons.prems(1)] Previous by simp
  qed
qed

lemma run_controls_index:
  assumes "xs \<noteq> []" and "cs \<noteq> []"
  shows "0 \<le> getCurrentIndex (run_controls cs xs)"
proof (cases cs)
  case Nil
  then show ?thesis using assms(2) by simp
next
  case (Cons c cs')
  show ?thesis
  proof (cases c)
    case Next
    have "control_next xs \<noteq> []"
      using assms(1) by (metis length_control_next length_0_conv)
    then show ?thesis
      using run_controls_keeps_index control_next_index_nonneg [OF assms(1)] Cons Next
      by simp
  next
    case Previous
    have "control_previous xs \<noteq> []"
      using assms(1) by (metis length_control_previous length_0_conv)
    then show ?thesis
      using run_controls_keeps_index control_previous_index_nonneg [OF assms(1)] Cons Previous
      by simp
  qed
qed

text \<open>
  Claim C2. On a non-empty schedule of length \<open>N\<close> with no current item, after every
  sequence of \<^verbatim>\<open>next\<close> and \<^verbatim>\<open>previous\<close> requests the list still has \<open>N\<close>
  items and the current index lies in \<open>[0, N-1]\<close> once a request has been made (it is
  \<open>-1\<close>, no current item, before). From every state so reached, \<^verbatim>\<open>next\<close> sets
  index \<open>0\<close> when there is no current item and \<open>min (N-1) (index+1)\<close> otherwise, so
  at the last item it stays on the last item; \<^verbatim>\<open>previous\<close> sets index \<open>0\<close> when
  the index is \<open>0\<close> or absent and \<open>index-1\<close> otherwise. Neither wraps around.
\<close>

theorem C2_next_previous_stay_in_range:
  assumes "schedule \<noteq> []" and "getCurrentIndex schedule = - 1"
  shows "length (run_controls cs schedule) = length schedule
    \<and> - 1 \<le> getCurrentIndex (run_controls cs schedule)
    \<and> getCurrentIndex (run_controls cs schedule) \<le> int (length schedule) - 1
    \<and> (cs \<noteq> [] \<longrightarrow> 0 \<le> getCurrentIndex (run_controls cs schedule))
    \<and> getCurrentIndex (control_next (run_controls cs schedule)) =
        (if getCurrentIndex (run_controls cs schedule) < 0 then 0
         else min (int (length schedule) - 1) (getCurrentIndex (run_controls cs schedule) + 1))
    \<and> getCurrentIndex (control_previous (run_controls cs schedule)) =
        (if getCurrentIndex (run_controls cs schedule) \<le> 0 then 0
         else getCurrentIndex (run_controls cs schedule) - 1)"
proof -
  let ?s = "run_controls cs schedule"
  have ne: "?s \<noteq> []"
    using assms(1) by (metis length_run_controls length_0_conv)
  have b: "- 1 \<le> getCurrentIndex ?s \<and> getCurrentIndex ?s < int (length ?s)"
    by (rule getCurrentIndex_bounds)
  have pos: "cs \<noteq> [] \<longrightarrow> 0 \<le> getCurrentIndex ?s"
    using run_controls_index [OF assms(1)] by blast
  have n: "getCurrentIndex (control_next ?s) =
      (if getCurrentIndex ?s < 0 then 0
       else min (int (length ?s) - 1) (getCurrentIndex ?s + 1))"
    by (rule getCurrentIndex_next [OF ne])
  have p: "getCurrentIndex (control_previous ?s) =
      (if getCurrentIndex ?s \<le> 0 then 0 else getCurrentIndex ?s - 1)"
    by (rule getCurrentIndex_previous [OF ne])
  show ?thesis using b pos n p by simp
qed

lemma schedule_ABC_start:
  "schedule_ABC \<noteq> [] \<and> getCurrentIndex schedule_ABC = - 1 \<and> length schedule_ABC = 3"
  by (simp add: schedule_ABC_def mk_item_def getCurrentIndex_def)

theorem C2_next_previous_stay_in_range_witness:
  "schedule_ABC \<noteq> [] \<and> getCurrentIndex schedule_ABC = - 1
   \<and> length (run_controls [Next, Next, Next, Next, Previous] schedule_ABC) = 3
   \<and> 0 \<le> getCurrentIndex (run_controls [Next, Next, Next, Next, Previous] schedule_ABC)
   \<and> getCurrentIndex (run_controls [Next, Next, Next, Next, Previous] schedule_ABC) \<le> 2"
proof -
  have h1: "schedule_ABC \<noteq> []" and h2: "getCurrentIndex schedule_ABC = - 1"
    and len: "length schedule_ABC = 3"
    using schedule_ABC_start by simp_all
  show ?thesis
    using C2_next_previous_stay_in_range [OF h1 h2, of "[Next, Next, Next, Next, Previous]"]
      h1 h2 len by simp
qed

text \<open>
  The run of the specification's example: on \<open>[A, B, C]\<close> with no current item,
  \<^verbatim>\<open>next\<close> makes A current, \<^verbatim>\<open>next\<close> makes B current, \<^verbatim>\<open>previous\<close> makes A
  current, \<^verbatim>\<open>previous\<close> leaves A current; four times \<^verbatim>\<open>next\<close> ends on C.
\<close>

lemma example_ABC:
  "map is_current (run_controls [Next] schedule_ABC) = [True, False, False]
   \<and> map is_current (run_controls [Next, Next] schedule_ABC) = [False, True, False]
   \<and> map is_current (run_controls [Next, Next, Previous] schedule_ABC) = [True, False, False]
   \<and> map is_current (run_controls [Next, Next, Previous, Previous] schedule_ABC)
       = [True, False, False]
   \<and> map is_current (run_controls [Next, Next, Next, Next] schedule_ABC) = [False, False, True]"
  by (simp add: schedule_ABC_def mk_item_def control_next_def control_previous_def
      getCurrentIndex_def map_index_def Let_def)

section \<open>Setting the current item by id\<close>

lemma list_ex_item_id: "list_ex (\<lambda>s. item_id s = sid) xs \<longleftrightarrow> sid \<in> set (map item_id xs)"
  by (induction xs) auto

lemma current_count_flag_by_id:
  assumes "distinct (map item_id xs)" and "sid \<in> set (map item_id xs)"
  shows "current_count (map (\<lambda>s. s\<lparr>is_current := (item_id s = sid)\<rparr>) xs) = 1"
  using assms
proof (induction xs)
  case Nil
  then show ?case by simp
next
  case (Cons x xs)
  show ?case
  proof (cases "item_id x = sid")
    case True
    then have "sid \<notin> set (map item_id xs)" using Cons.prems(1) by auto
    then have "filter is_current (map (\<lambda>s. s\<lparr>is_current := (item_id s = sid)\<rparr>) xs) = []"
      by (auto simp: filter_empty_conv)
    then show ?thesis using True by (simp add: current_count_def)
  next
    case False
    then show ?thesis using Cons by (simp add: current_count_def)
  qed
qed

text \<open>
  Claim C8. \<^verbatim>\<open>set-current\<close> with an id that no stored item has answers
  \<open>NotFound\<close> and leaves the schedule as it was. With an id that is present it succeeds,
  keeps the length and every other field of every item, and an item is current
  afterwards exactly when its id is the given one, whatever its position; when the
  stored ids are pairwise distinct, exactly one item is current.
\<close>

theorem C8_set_current:
  "(sid \<notin> set (map item_id schedule) \<longrightarrow>
      control_set_current sid schedule = (Inl NotFound, schedule))
   \<and> (sid \<in> set (map item_id schedule) \<longrightarrow>
      fst (control_set_current sid schedule) = Inr ()
      \<and> length (snd (control_set_current sid schedule)) = length schedule
      \<and> (\<forall>i < length schedule.
            is_current (snd (control_set_current sid schedule) ! i)
              = (item_id (schedule ! i) = sid)
            \<and> (snd (control_set_current sid schedule) ! i)\<lparr>is_current := False\<rparr>
              = (schedule ! i)\<lparr>is_current := False\<rparr>)
      \<and> (distinct (map item_id schedule) \<longrightarrow>
            current_count (snd (control_set_current sid schedule)) = 1))"
proof (intro conjI impI)
  assume "sid \<notin> set (map item_id schedule)"
  then show "control_set_current sid schedule = (Inl NotFound, schedule)"
    by (simp add: control_set_current_def list_ex_item_id)
next
  assume a: "sid \<in> set (map item_id schedule)"
  then show "fst (control_set_current sid schedule) = Inr ()"
    by (simp add: control_set_current_def list_ex_item_id)
  from a show "length (snd (control_set_current sid schedule)) = length schedule"
    by (simp add: control_set_current_def list_ex_item_id)
  from a show "\<forall>i < length schedule.
      is_current (snd (control_set_current sid schedule) ! i) = (item_id (schedule ! i) = sid)
      \<and> (snd (control_set_current sid schedule) ! i)\<lparr>is_current := False\<rparr>
        = (schedule ! i)\<lparr>is_current := False\<rparr>"
    by (simp add: control_set_current_def list_ex_item_id)
  assume "distinct (map item_id schedule)"
  then show "current_count (snd (control_set_current sid schedule)) = 1"
    using a current_count_flag_by_id [of schedule sid]
    by (simp add: control_set_current_def list_ex_item_id)
qed

theorem C8_set_current_witness:
  "''X'' \<notin> set (map item_id schedule_ABC)
   \<and> control_set_current ''X'' schedule_ABC = (Inl NotFound, schedule_ABC)
   \<and> ''C'' \<in> set (map item_id schedule_ABC)
   \<and> distinct (map item_id schedule_ABC)
   \<and> fst (control_set_current ''C'' schedule_ABC) = Inr ()
   \<and> map is_current (snd (control_set_current ''C'' schedule_ABC)) = [False, False, True]
   \<and> current_count (snd (control_set_current ''C'' schedule_ABC)) = 1"
proof -
  have a: "''X'' \<notin> set (map item_id schedule_ABC)"
    and b: "''C'' \<in> set (map item_id schedule_ABC)"
    and d: "distinct (map item_id schedule_ABC)"
    by (simp_all add: schedule_ABC_def mk_item_def)
  have m: "map is_current (snd (control_set_current ''C'' schedule_ABC)) = [False, False, True]"
    by (simp add: schedule_ABC_def mk_item_def control_set_current_def)
  show ?thesis
    using C8_set_current [of "''X''" schedule_ABC] C8_set_current [of "''C''" schedule_ABC]
      a b d m by simp
qed

section \<open>Messages and acknowledgements\<close>

text \<open>
  Claim C5. Acknowledging twice with the same client id leaves the stored message, and
  gives the response, that acknowledging once does; an acknowledgement never changes
  \<open>active\<close> (or the text), and the set of acknowledged ids afterwards is the set
  before with the trimmed id added (unchanged when the id is missing or blank, which is
  answered \<open>ValidationError\<close>).
\<close>

theorem C5_ack_idempotent:
  "snd (post_message_ack c (snd (post_message_ack c m))) = snd (post_message_ack c m)
   \<and> fst (post_message_ack c (snd (post_message_ack c m))) = fst (post_message_ack c m)
   \<and> active (snd (post_message_ack c m)) = active m
   \<and> msg_text (snd (post_message_ack c m)) = msg_text m
   \<and> set (acked_by (snd (post_message_ack c m)))
       = (if js_trim (or_default c '''') = [] then set (acked_by m)
          else insert (js_trim (or_default c '''')) (set (acked_by m)))"
  by (auto simp: post_message_ack_def Let_def)

lemma message_step_no_blank:
  assumes "[] \<notin> set (acked_by m)"
  shows "[] \<notin> set (acked_by (message_step r m))"
proof (cases r)
  case (Post now stamp t)
  then show ?thesis using assms
    by (auto simp: post_message_def Let_def split: option.splits)
next
  case (Ack c)
  then show ?thesis using assms by (auto simp: post_message_ack_def Let_def)
next
  case Clear
  then show ?thesis using assms by (simp add: post_message_clear_def)
qed

lemma run_messages_no_blank:
  assumes "[] \<notin> set (acked_by m)"
  shows "[] \<notin> set (acked_by (run_messages rs m))"
  using assms by (induction rs arbitrary: m) (auto simp: message_step_no_blank)

lemma get_message_active:
  assumes "[] \<notin> set (acked_by m)"
  shows "active (get_message (Some c) m) = (active m \<and> c \<notin> set (acked_by m))"
  using assms by (auto simp: get_message_def or_default_def Let_def)

lemma defaultMessage_formula:
  "active (get_message (Some c) (run_messages rs defaultMessage))
     = (active (run_messages rs defaultMessage)
        \<and> c \<notin> set (acked_by (run_messages rs defaultMessage)))"
proof -
  have "[] \<notin> set (acked_by defaultMessage)" by (simp add: defaultMessage_def)
  then have "[] \<notin> set (acked_by (run_messages rs defaultMessage))"
    by (rule run_messages_no_blank)
  then show ?thesis by (rule get_message_active)
qed

text \<open>
  Claim C4. A post with text that is not blank succeeds and replaces the stored message:
  the new message has an empty acknowledgement list, is active and carries the trimmed
  text. Every client is then sent the message as active, a client whose id was in the
  previous acknowledgement list included. At read time, in every state reached from the
  posted message, or from the default message the server starts with, by further
  requests, the client with id \<open>c\<close> is sent
  \<open>active = (message.active and c not in acked_by)\<close>.
\<close>

theorem C4_post_resets_acknowledgements:
  assumes "js_trim t \<noteq> []"
  shows "fst (post_message now stamp (Some t) m) = Inr (snd (post_message now stamp (Some t) m))
    \<and> snd (post_message now stamp (Some t) m)
        = \<lparr> msg_id = Some now, msg_text = js_trim t, active = True,
            created = Some stamp, acked_by = [] \<rparr>
    \<and> acked_by (snd (post_message now stamp (Some t) m)) = []
    \<and> active (snd (post_message now stamp (Some t) m))
    \<and> msg_text (snd (post_message now stamp (Some t) m)) = js_trim t
    \<and> (c \<in> set (acked_by m) \<longrightarrow>
          active (get_message (Some c) (snd (post_message now stamp (Some t) m))))
    \<and> active (get_message q (snd (post_message now stamp (Some t) m)))
    \<and> active (get_message (Some c) (run_messages rs (snd (post_message now stamp (Some t) m))))
        = (active (run_messages rs (snd (post_message now stamp (Some t) m)))
           \<and> c \<notin> set (acked_by (run_messages rs (snd (post_message now stamp (Some t) m)))))
    \<and> active (get_message (Some c) (run_messages rs defaultMessage))
        = (active (run_messages rs defaultMessage)
           \<and> c \<notin> set (acked_by (run_messages rs defaultMessage)))"
proof -
  let ?m = "snd (post_message now stamp (Some t) m)"
  from assms have t: "t \<noteq> []" by (auto simp: js_trim_def)
  have m: "?m = \<lparr> msg_id = Some now, msg_text = js_trim t, active = True,
                   created = Some stamp, acked_by = [] \<rparr>"
    using assms t by (simp add: post_message_def Let_def)
  have r: "fst (post_message now stamp (Some t) m) = Inr ?m"
    using assms t by (simp add: post_message_def Let_def)
  have g: "active (get_message q ?m)" for q
    by (simp add: m get_message_def Let_def)
  have "[] \<notin> set (acked_by ?m)" by (simp add: m)
  then have "[] \<notin> set (acked_by (run_messages rs ?m))"
    by (rule run_messages_no_blank)
  then have f: "active (get_message (Some c) (run_messages rs ?m))
      = (active (run_messages rs ?m) \<and> c \<notin> set (acked_by (run_messages rs ?m)))"
    by (rule get_message_active)
  have a: "acked_by ?m = []" and b: "active ?m" and c: "msg_text ?m = js_trim t"
    by (simp_all add: m)
  have d: "active (get_message (Some c) (run_messages rs defaultMessage))
      = (active (run_messages rs defaultMessage)
         \<and> c \<notin> set (acked_by (run_messages rs defaultMessage)))"
    by (rule defaultMessage_formula)
  show ?thesis using r m a b c g f d by blast
qed

theorem C4_post_resets_acknowledgements_witness:
  "js_trim ''Weiter'' \<noteq> []
   \<and> ''X'' \<in> set (acked_by acked_message)
   \<and> \<not> active (get_message (Some ''X'') acked_message)
   \<and> acked_by (snd (post_message 2 ''t2'' (Some ''Weiter'') acked_message)) = []
   \<and> active (get_message (Some ''X'') (snd (post_message 2 ''t2'' (Some ''Weiter'') acked_message)))"
proof -
  have h: "js_trim ''Weiter'' \<noteq> []" by (simp add: js_trim_def is_space_def)
  have x: "''X'' \<in> set (acked_by acked_message)"
    and o: "\<not> active (get_message (Some ''X'') acked_message)"
    by (simp_all add: acked_message_def get_message_def or_default_def)
  have a: "acked_by (snd (post_message 2 ''t2'' (Some ''Weiter'') acked_message)) = []"
    and b: "active (get_message (Some ''X'')
              (snd (post_message 2 ''t2'' (Some ''Weiter'') acked_message)))"
    using C4_post_resets_acknowledgements [OF h, of 2 "''t2''" acked_message "''X''" None "[]"] x
    by blast+
  show ?thesis using h x o a b by blast
qed

text \<open>The specification's example: after X acknowledged, X is sent the message as
  inactive while Y is sent it as active, and the stored message stays active.\<close>

lemma example_ack_per_client:
  "active (get_message (Some ''Y'') acked_message)
   \<and> \<not> active (get_message (Some ''X'') acked_message)
   \<and> active acked_message"
  by (simp add: acked_message_def get_message_def or_default_def)

section \<open>The countdown\<close>

lemma of_char_digit_char: "d < 10 \<Longrightarrow> (of_char (digit_char d) :: nat) = 48 + d"
  by (simp add: digit_char_def)

lemma digit_char_not_colon: "d < 10 \<Longrightarrow> digit_char d \<noteq> CHR '':''"
proof
  assume d: "d < 10" and e: "digit_char d = CHR '':''"
  have "(of_char (digit_char d) :: nat) = of_char CHR '':''" using e by simp
  then show False using of_char_digit_char [OF d] d by simp
qed

lemma digit_char_not_space: "d < 10 \<Longrightarrow> \<not> is_space (digit_char d)"
  by (simp add: is_space_def of_char_digit_char)

lemma digit_char_is_digit: "d < 10 \<Longrightarrow> is_digit (digit_char d)"
  by (simp add: is_digit_def of_char_digit_char)

lemma js_split_hhmm:
  assumes "h < 100" and "m < 100"
  shows "js_split CHR '':'' (hhmm h m) =
    [[digit_char (h div 10), digit_char (h mod 10)],
     [digit_char (m div 10), digit_char (m mod 10)]]"
proof -
  have "h div 10 < 10" "h mod 10 < 10" "m div 10 < 10" "m mod 10 < 10"
    using assms by simp_all
  then show ?thesis by (simp add: hhmm_def digit_char_not_colon)
qed

lemma js_Number_two_digits:
  assumes "a < 10" and "b < 10"
  shows "js_Number [digit_char a, digit_char b] = Num (int (a * 10 + b))"
  using assms
  by (simp add: js_Number_def js_trim_def digit_char_not_space digit_char_is_digit
      digits_value_def of_char_digit_char)

lemma hhmm_not_empty: "hhmm h m \<noteq> []"
  by (simp add: hhmm_def)

lemma parts_hhmm:
  assumes "h < 100" and "m < 100"
  shows "map js_Number (js_split CHR '':'' (or_default (Some (hhmm h m)) ''00:00''))
    = [Num (int h), Num (int m)]"
proof -
  have d: "h div 10 < 10" "h mod 10 < 10" "m div 10 < 10" "m mod 10 < 10"
    using assms by simp_all
  have "or_default (Some (hhmm h m)) ''00:00'' = hhmm h m"
    by (simp add: or_default_def hhmm_not_empty)
  then show ?thesis
    using d by (simp add: js_split_hhmm [OF assms] js_Number_two_digits)
qed

lemma div_after_mod:
  fixes a b c :: int
  assumes "0 < b" and "0 \<le> c"
  shows "(a mod (b * c)) div b = (a div b) mod c"
proof -
  have "a mod (b * c) = b * (a div b mod c) + a mod b"
    using assms(2) by (rule zmod_zmult2_eq)
  moreover have "(b * (a div b mod c) + a mod b) div b = a div b mod c"
    using assms(1) by simp
  ultimately show ?thesis by simp
qed

lemma hms_of_seconds:
  fixes q :: int
  shows "q div 3600 * 3600 + (q mod 3600) div 60 * 60 + q mod 60 = q"
proof -
  have a: "q div 3600 = q div 60 div 60"
    using zdiv_zmult2_eq [of 60 q 60] by simp
  have b: "(q mod 3600) div 60 = (q div 60) mod 60"
    using div_after_mod [of 60 60 q] by simp
  have c: "q div 60 div 60 * 60 + q div 60 mod 60 = q div 60"
    by (rule div_mult_mod_eq)
  have d: "q div 60 * 60 + q mod 60 = q"
    by (rule div_mult_mod_eq)
  have g: "x * 3600 + y * 60 + z = (x * 60 + y) * 60 + z" for x y z :: int
    by simp
  have "q div 60 div 60 * 3600 + q div 60 mod 60 * 60 + q mod 60
      = (q div 60 div 60 * 60 + q div 60 mod 60) * 60 + q mod 60"
    by (rule g)
  also have "\<dots> = q div 60 * 60 + q mod 60" by (simp only: c)
  also have "\<dots> = q" by (rule d)
  finally show ?thesis unfolding a b .
qed

lemma hms_of_diff:
  fixes dd :: int
  assumes "0 < dd"
  shows "dd div (1000 * 60 * 60) * 3600 + (dd mod (1000 * 60 * 60)) div (1000 * 60) * 60
           + (dd mod (1000 * 60)) div 1000 = dd div 1000"
    and "0 \<le> dd div (1000 * 60 * 60)"
    and "0 \<le> (dd mod (1000 * 60 * 60)) div (1000 * 60)"
    and "(dd mod (1000 * 60 * 60)) div (1000 * 60) < 60"
    and "0 \<le> (dd mod (1000 * 60)) div 1000"
    and "(dd mod (1000 * 60)) div 1000 < 60"
proof -
  let ?q = "dd div 1000"
  have h: "dd div (1000 * 60 * 60) = ?q div 3600"
    using zdiv_zmult2_eq [of 3600 dd 1000] by simp
  have "(dd mod (1000 * 3600)) div 1000 = ?q mod 3600"
    using div_after_mod [of 1000 3600 dd] by simp
  then have m: "(dd mod (1000 * 60 * 60)) div (1000 * 60) = (?q mod 3600) div 60"
    using zdiv_zmult2_eq [of 60 "dd mod (1000 * 60 * 60)" 1000] by simp
  have s: "(dd mod (1000 * 60)) div 1000 = ?q mod 60"
    using div_after_mod [of 1000 60 dd] by simp
  have q: "0 \<le> ?q" using assms by simp
  show "dd div (1000 * 60 * 60) * 3600 + (dd mod (1000 * 60 * 60)) div (1000 * 60) * 60
           + (dd mod (1000 * 60)) div 1000 = dd div 1000"
    unfolding h m s by (rule hms_of_seconds)
  show "0 \<le> dd div (1000 * 60 * 60)" unfolding h using q by simp
  show "0 \<le> (dd mod (1000 * 60 * 60)) div (1000 * 60)" unfolding m by simp
  show "(dd mod (1000 * 60 * 60)) div (1000 * 60) < 60" unfolding m by simp
  show "0 \<le> (dd mod (1000 * 60)) div 1000" unfolding s by simp
  show "(dd mod (1000 * 60)) div 1000 < 60" unfolding s by simp
qed

lemma js_find_None: "js_find P xs = None \<longleftrightarrow> \<not> list_ex P xs"
  by (induction xs) auto

lemma calculateCountdown_same:
  "viewer_calculateCountdown setHours now (Some st) schedule
     = crew_calculateCountdown setHours now st schedule"
  "viewer_calculateCountdown setHours now None schedule
     = crew_calculateCountdown setHours now DEFAULT_SETTINGS schedule"
  "current_only_calculateCountdown setHours now st schedule
     = crew_calculateCountdown setHours now st schedule"
  "admin_calculateCountdown setHours now st schedule
     = crew_calculateCountdown setHours now st schedule"
  by (simp_all add: viewer_calculateCountdown_def crew_calculateCountdown_def
      current_only_calculateCountdown_def admin_calculateCountdown_def)

lemma crew_countdown_zero:
  assumes "\<not> list_ex is_current schedule \<or> is_paused st"
  shows "crew_calculateCountdown setHours now st schedule = zero_countdown"
proof (cases "js_find is_current schedule")
  case None
  then show ?thesis by (simp add: crew_calculateCountdown_def zero_countdown_def)
next
  case (Some x)
  then have "list_ex is_current schedule" using js_find_None [of is_current schedule] by simp
  then have "is_paused st" using assms by simp
  then show ?thesis using Some by (simp add: crew_calculateCountdown_def zero_countdown_def)
qed

lemma crew_countdown_value:
  assumes "js_find is_current schedule = Some item" and "\<not> is_paused st"
    and "h < 24" and "m < 60" and "end_time item = hhmm h m"
    and "setHours (int h) (int m) = Some e"
  shows "crew_calculateCountdown setHours now st schedule =
     (if e - now > 0 then
        \<lparr> hours = (e - now) div (1000 * 60 * 60),
          minutes = ((e - now) mod (1000 * 60 * 60)) div (1000 * 60),
          seconds = ((e - now) mod (1000 * 60)) div 1000 \<rparr>
      else zero_countdown)"
proof -
  have p: "map js_Number (js_split CHR '':'' (or_default (Some (end_time item)) ''00:00''))
      = [Num (int h), Num (int m)]"
    using assms(3,4) by (simp only: assms(5)) (rule parts_hhmm, simp_all)
  show ?thesis
    unfolding crew_calculateCountdown_def assms(1) option.case p
    using assms(2,6) by (simp add: nth_opt_def num_or_0_def Let_def zero_countdown_def)
qed

lemma crew_countdown_seconds:
  assumes "js_find is_current schedule = Some item" and "\<not> is_paused st"
    and "h < 24" and "m < 60" and "end_time item = hhmm h m"
    and "setHours (int h) (int m) = Some e"
  shows "total_seconds (crew_calculateCountdown setHours now st schedule)
           = max 0 (e - now) div 1000
    \<and> 0 \<le> hours (crew_calculateCountdown setHours now st schedule)
    \<and> 0 \<le> minutes (crew_calculateCountdown setHours now st schedule)
    \<and> minutes (crew_calculateCountdown setHours now st schedule) < 60
    \<and> 0 \<le> seconds (crew_calculateCountdown setHours now st schedule)
    \<and> seconds (crew_calculateCountdown setHours now st schedule) < 60"
proof (cases "e - now > 0")
  case True
  have v: "crew_calculateCountdown setHours now st schedule =
      \<lparr> hours = (e - now) div (1000 * 60 * 60),
        minutes = ((e - now) mod (1000 * 60 * 60)) div (1000 * 60),
        seconds = ((e - now) mod (1000 * 60)) div 1000 \<rparr>"
    using crew_countdown_value [where setHours = setHours and now = now, OF assms] True by simp
  have mx: "max 0 (e - now) = e - now" using True by simp
  show ?thesis
    unfolding v total_seconds_def mx countdown.simps
    using hms_of_diff [OF True] by blast
next
  case False
  have v: "crew_calculateCountdown setHours now st schedule = zero_countdown"
    using crew_countdown_value [where setHours = setHours and now = now, OF assms] False by simp
  have mx: "max 0 (e - now) = 0" using False by simp
  show ?thesis unfolding v mx by (simp add: zero_countdown_def total_seconds_def)
qed

text \<open>
  Claim C3, for the countdown of the viewer, crew and admin overview pages. When no item
  is current or the pause flag is set, the countdown is zero. Otherwise, for the first
  current item with end time \<open>HH:MM\<close>, \<open>e\<close> being the instant of \<open>HH:MM\<close> on
  the current local day: the three pages compute the same countdown, its hours, minutes
  and seconds are those of \<open>e - now\<close> floored at zero, in whole seconds, with minutes
  and seconds below 60.
\<close>

theorem C3_countdown:
  "(\<not> list_ex is_current schedule \<or> is_paused st \<longrightarrow>
      viewer_calculateCountdown setHours now (Some st) schedule = zero_countdown
      \<and> crew_calculateCountdown setHours now st schedule = zero_countdown
      \<and> admin_calculateCountdown setHours now st schedule = zero_countdown)
   \<and> (js_find is_current schedule = Some item \<and> \<not> is_paused st \<and> h < 24 \<and> m < 60
       \<and> end_time item = hhmm h m \<and> setHours (int h) (int m) = Some e \<longrightarrow>
      viewer_calculateCountdown setHours now (Some st) schedule
        = crew_calculateCountdown setHours now st schedule
      \<and> admin_calculateCountdown setHours now st schedule
        = crew_calculateCountdown setHours now st schedule
      \<and> total_seconds (crew_calculateCountdown setHours now st schedule)
          = max 0 (e - now) div 1000
      \<and> 0 \<le> hours (crew_calculateCountdown setHours now st schedule)
      \<and> 0 \<le> minutes (crew_calculateCountdown setHours now st schedule)
      \<and> minutes (crew_calculateCountdown setHours now st schedule) < 60
      \<and> 0 \<le> seconds (crew_calculateCountdown setHours now st schedule)
      \<and> seconds (crew_calculateCountdown setHours now st schedule) < 60)"
proof (intro conjI impI)
  assume z: "\<not> list_ex is_current schedule \<or> is_paused st"
  show "crew_calculateCountdown setHours now st schedule = zero_countdown"
    using z by (rule crew_countdown_zero)
  then show "viewer_calculateCountdown setHours now (Some st) schedule = zero_countdown"
    and "admin_calculateCountdown setHours now st schedule = zero_countdown"
    by (simp_all only: calculateCountdown_same)
next
  assume a: "js_find is_current schedule = Some item \<and> \<not> is_paused st \<and> h < 24 \<and> m < 60
       \<and> end_time item = hhmm h m \<and> setHours (int h) (int m) = Some e"
  show "viewer_calculateCountdown setHours now (Some st) schedule
        = crew_calculateCountdown setHours now st schedule"
    by (rule calculateCountdown_same)
  show "admin_calculateCountdown setHours now st schedule
        = crew_calculateCountdown setHours now st schedule"
    by (rule calculateCountdown_same)
  have s: "total_seconds (crew_calculateCountdown setHours now st schedule)
           = max 0 (e - now) div 1000
    \<and> 0 \<le> hours (crew_calculateCountdown setHours now st schedule)
    \<and> 0 \<le> minutes (crew_calculateCountdown setHours now st schedule)
    \<and> minutes (crew_calculateCountdown setHours now st schedule) < 60
    \<and> 0 \<le> seconds (crew_calculateCountdown setHours now st schedule)
    \<and> seconds (crew_calculateCountdown setHours now st schedule) < 60"
    using a crew_countdown_seconds [where setHours = setHours and now = now
        and schedule = schedule and item = item and st = st and h = h and m = m and e = e]
    by blast
  from s show "total_seconds (crew_calculateCountdown setHours now st schedule)
          = max 0 (e - now) div 1000" by blast
  from s show "0 \<le> hours (crew_calculateCountdown setHours now st schedule)" by blast
  from s show "0 \<le> minutes (crew_calculateCountdown setHours now st schedule)" by blast
  from s show "minutes (crew_calculateCountdown setHours now st schedule) < 60" by blast
  from s show "0 \<le> seconds (crew_calculateCountdown setHours now st schedule)" by blast
  from s show "seconds (crew_calculateCountdown setHours now st schedule) < 60" by blast
qed

lemma schedule_live_current:
  "js_find is_current schedule_live = Some (mk_item ''B'' ''11:00'' True)"
  by (simp add: schedule_live_def mk_item_def)

lemma hhmm_11_00: "end_time (mk_item ''B'' ''11:00'' True) = hhmm 11 0"
proof -
  have "char_of (of_char CHR ''1'' :: nat) = CHR ''1''"
    and "char_of (of_char CHR ''0'' :: nat) = CHR ''0''"
    by (rule char_of_char)+
  then have "char_of (49 :: nat) = CHR ''1''" and "char_of (48 :: nat) = CHR ''0''"
    by simp_all
  then show ?thesis by (simp add: mk_item_def hhmm_def digit_char_def)
qed

theorem C3_countdown_witness:
  "js_find is_current schedule_live = Some (mk_item ''B'' ''11:00'' True)
   \<and> \<not> is_paused running \<and> (11::nat) < 24 \<and> (0::nat) < 60
   \<and> end_time (mk_item ''B'' ''11:00'' True) = hhmm 11 0
   \<and> plain_day 1768089600000 (int 11) (int 0) = Some 1768129200000
   \<and> total_seconds (crew_calculateCountdown (plain_day 1768089600000) 1768127415500
        running schedule_live) = 1784
   \<and> total_seconds (crew_calculateCountdown (plain_day 1768089600000) 1768129200001
        running schedule_live) = 0
   \<and> \<not> list_ex is_current schedule_ABC
   \<and> crew_calculateCountdown (plain_day 1768089600000) 1768127415500 running schedule_ABC
        = zero_countdown"
proof -
  have p: "\<not> is_paused running" by (simp add: running_def DEFAULT_SETTINGS_def)
  have e: "plain_day 1768089600000 (int 11) (int 0) = Some 1768129200000"
    by (simp add: plain_day_def)
  have n: "\<not> list_ex is_current schedule_ABC"
    by (simp add: schedule_ABC_def mk_item_def)
  show ?thesis
    using C3_countdown [of schedule_live running "plain_day 1768089600000" 1768127415500
        "mk_item ''B'' ''11:00'' True" 11 0 1768129200000]
      C3_countdown [of schedule_live running "plain_day 1768089600000" 1768129200001
        "mk_item ''B'' ''11:00'' True" 11 0 1768129200000]
      C3_countdown [of schedule_ABC running "plain_day 1768089600000" 1768127415500]
      schedule_live_current hhmm_11_00 p e n
    by simp
qed

text \<open>
  Claim C10. For the same schedule, pause flag (settings) and clock, the countdown
  functions of the viewer, crew and current-only pages return the same hours, minutes
  and seconds. (Without a settings object the viewer page computes with its default
  settings.)
\<close>

theorem C10_countdowns_agree:
  "viewer_calculateCountdown setHours now (Some st) schedule
     = crew_calculateCountdown setHours now st schedule
   \<and> crew_calculateCountdown setHours now st schedule
     = current_only_calculateCountdown setHours now st schedule
   \<and> viewer_calculateCountdown setHours now (Some st) schedule
     = current_only_calculateCountdown setHours now st schedule
   \<and> viewer_calculateCountdown setHours now None schedule
     = crew_calculateCountdown setHours now DEFAULT_SETTINGS schedule"
  by (simp only: calculateCountdown_same)

section \<open>Polling failures\<close>

text \<open>
  Claim C9 as stated fails. A failed settings fetch still runs \<^verbatim>\<open>setLoading(false)\<close>,
  so the first failed poll changes the state of the theme provider; and on the crew page
  a failed schedule request does not keep a fulfilled phases request of the same poll
  from replacing the phases.
\<close>

theorem C9_poll_failure_counterexample:
  "fetchSettings Rejected theme_start \<noteq> theme_start
   \<and> crew_fetchData Rejected (Fulfilled (Some [phase_show])) Rejected Rejected crew_shown
       \<noteq> crew_shown"
  by (simp add: fetchSettings_def theme_start_def crew_fetchData_def crew_shown_def)

text \<open>
  Claim C9, amended. A failed request never clears or replaces the data it would have
  refreshed. The viewer's \<^verbatim>\<open>fetchData\<close> changes nothing when either of its two
  requests fails. The crew page's \<^verbatim>\<open>fetchData\<close> leaves every collection whose own
  request failed as it was, and changes nothing when all four fail. A failed
  \<^verbatim>\<open>fetchSettings\<close> leaves the settings as they were and sets only the loading
  flag to false, which is no change once the flag is false.
\<close>

theorem C9_poll_failure_keeps_data:
  "(scheduleRes = Rejected \<or> phasesRes = Rejected \<longrightarrow>
      viewer_fetchData scheduleRes phasesRes vst = vst)
   \<and> (scheduleRes = Rejected \<longrightarrow>
      c_schedule (crew_fetchData scheduleRes phasesRes peopleRes groupsRes cst) = c_schedule cst)
   \<and> (phasesRes = Rejected \<longrightarrow>
      c_phases (crew_fetchData scheduleRes phasesRes peopleRes groupsRes cst) = c_phases cst)
   \<and> (peopleRes = Rejected \<longrightarrow>
      c_people (crew_fetchData scheduleRes phasesRes peopleRes groupsRes cst) = c_people cst)
   \<and> (groupsRes = Rejected \<longrightarrow>
      c_groups (crew_fetchData scheduleRes phasesRes peopleRes groupsRes cst) = c_groups cst)
   \<and> crew_fetchData Rejected Rejected Rejected Rejected cst = cst
   \<and> t_settings (fetchSettings Rejected tst) = t_settings tst
   \<and> t_loading (fetchSettings Rejected tst) = False
   \<and> (\<not> t_loading tst \<longrightarrow> fetchSettings Rejected tst = tst)"
proof (intro conjI impI)
  assume "scheduleRes = Rejected \<or> phasesRes = Rejected"
  then show "viewer_fetchData scheduleRes phasesRes vst = vst"
    by (auto simp: viewer_fetchData_def split: response.splits)
next
  assume "scheduleRes = Rejected"
  then show "c_schedule (crew_fetchData scheduleRes phasesRes peopleRes groupsRes cst)
      = c_schedule cst"
    by (simp add: crew_fetchData_def Let_def split: response.splits)
next
  assume "phasesRes = Rejected"
  then show "c_phases (crew_fetchData scheduleRes phasesRes peopleRes groupsRes cst)
      = c_phases cst"
    by (simp add: crew_fetchData_def Let_def split: response.splits)
next
  assume "peopleRes = Rejected"
  then show "c_people (crew_fetchData scheduleRes phasesRes peopleRes groupsRes cst)
      = c_people cst"
    by (simp add: crew_fetchData_def Let_def split: response.splits)
next
  assume "groupsRes = Rejected"
  then show "c_groups (crew_fetchData scheduleRes phasesRes peopleRes groupsRes cst)
      = c_groups cst"
    by (simp add: crew_fetchData_def Let_def split: response.splits)
next
  show "crew_fetchData Rejected Rejected Rejected Rejected cst = cst"
    by (simp add: crew_fetchData_def)
  show "t_settings (fetchSettings Rejected tst) = t_settings tst"
    by (simp add: fetchSettings_def)
  show "t_loading (fetchSettings Rejected tst) = False"
    by (simp add: fetchSettings_def)
next
  assume "\<not> t_loading tst"
  then show "fetchSettings Rejected tst = tst"
    by (simp add: fetchSettings_def)
qed

theorem C9_poll_failure_keeps_data_witness:
  "viewer_fetchData Rejected (Fulfilled (Some [phase_show])) viewer_shown = viewer_shown
   \<and> viewer_fetchData (Fulfilled None) Rejected viewer_shown = viewer_shown
   \<and> c_schedule (crew_fetchData Rejected (Fulfilled (Some [phase_show])) Rejected Rejected
        crew_shown) = schedule_live
   \<and> c_phases (crew_fetchData Rejected (Fulfilled (Some [phase_show])) Rejected Rejected
        crew_shown) = [phase_show]
   \<and> t_settings (fetchSettings Rejected theme_start) = Some DEFAULT_SETTINGS
   \<and> \<not> t_loading (fetchSettings Rejected theme_start)
   \<and> fetchSettings Rejected (fetchSettings Rejected theme_start)
       = fetchSettings Rejected theme_start"
proof -
  have p: "c_phases (crew_fetchData Rejected (Fulfilled (Some [phase_show])) Rejected Rejected
        crew_shown) = [phase_show]"
    by (simp add: crew_fetchData_def)
  have s: "c_schedule crew_shown = schedule_live" by (simp add: crew_shown_def)
  have t: "t_settings theme_start = Some DEFAULT_SETTINGS" by (simp add: theme_start_def)
  show ?thesis
    using C9_poll_failure_keeps_data [of Rejected "Fulfilled (Some [phase_show])" viewer_shown
        Rejected Rejected crew_shown theme_start]
      C9_poll_failure_keeps_data [of "Fulfilled None" Rejected viewer_shown
        Rejected Rejected crew_shown "fetchSettings Rejected theme_start"]
      p s t
    by simp
qed

section \<open>Reordering\<close>

lemma mk_item_simps [simp]:
  "item_id (mk_item i e c) = i" "end_time (mk_item i e c) = e" "is_current (mk_item i e c) = c"
  by (simp_all add: mk_item_def)

lemma mset_remove_insert:
  assumes "s < length ys"
  shows "mset (take s2 (take s ys @ drop (s + 1) ys) @ [ys ! s]
            @ drop s2 (take s ys @ drop (s + 1) ys)) = mset ys"
proof -
  let ?rest = "take s ys @ drop (s + 1) ys"
  have "mset (take s2 ?rest @ [ys ! s] @ drop s2 ?rest)
      = mset (take s2 ?rest @ drop s2 ?rest) + {#ys ! s#}"
    by simp
  also have "\<dots> = mset ?rest + {#ys ! s#}"
    by (simp only: append_take_drop_id)
  also have "\<dots> = mset (take s ys @ ys ! s # drop (Suc s) ys)"
    by simp
  also have "\<dots> = mset ys"
    using id_take_nth_drop [OF assms] by simp
  finally show ?thesis .
qed

lemma arrayMove_cases:
  "(splice_start from (length ys) < length ys \<and> mset (arrayMove ys from to) = mset ys)
   \<or> (\<not> splice_start from (length ys) < length ys \<and> None \<in> set (arrayMove ys from to))"
proof (cases "splice_start from (length ys) < length ys")
  case True
  then show ?thesis
    using mset_remove_insert [OF True] by (simp add: arrayMove_def Let_def)
next
  case False
  then show ?thesis by (simp add: arrayMove_def Let_def)
qed


lemma list_ex_None: "list_ex (\<lambda>x. x = None) zs \<longleftrightarrow> None \<in> set zs"
  by (induction zs) auto


text \<open>On a page that shows at least one item, a drop on another item always sends a
  request.\<close>

lemma splice_start_findIndex:
  assumes "xs \<noteq> []"
  shows "splice_start (findIndex P xs) (length xs) < length xs"
proof -
  have b: "- 1 \<le> findIndex P xs \<and> findIndex P xs < int (length xs)"
    by (rule findIndex_bounds)
  have n: "0 < int (length xs)" using assms by simp
  show ?thesis
  proof (cases "findIndex P xs < 0")
    case True
    then have "findIndex P xs = - 1" using b by simp
    then have "splice_start (findIndex P xs) (length xs) = nat (int (length xs) - 1)"
      using n by (simp add: splice_start_def)
    moreover have "nat (int (length xs) - 1) < length xs"
      using assms by (cases xs) simp_all
    ultimately show ?thesis by simp
  next
    case False
    then have "splice_start (findIndex P xs) (length xs) = nat (findIndex P xs)"
      using b by (simp add: splice_start_def)
    then show ?thesis using b False by simp
  qed
qed

lemma handleDragEnd_returns:
  assumes "page \<noteq> []" and "over_id event = Some over" and "active_id event \<noteq> over"
  shows "\<exists>newOrder order. handleDragEnd event page = Inr (newOrder, Some order)"
proof -
  let ?moved = "arrayMove (map Some page)
      (findIndex (\<lambda>i. item_id i = active_id event) page)
      (findIndex (\<lambda>i. item_id i = over) page)"
  have "splice_start (findIndex (\<lambda>i. item_id i = active_id event) page) (length (map Some page))
      < length (map Some page)"
    using splice_start_findIndex [OF assms(1)] by simp
  then have "mset ?moved = mset (map Some page)"
    using arrayMove_cases [of "findIndex (\<lambda>i. item_id i = active_id event) page"
        "map Some page" "findIndex (\<lambda>i. item_id i = over) page"]
    by blast
  then have "set ?moved = set (map Some page)" by (rule mset_eq_setD)
  then have "None \<notin> set ?moved" by auto
  then show ?thesis
    using assms(2,3) by (simp add: handleDragEnd_def Let_def list_ex_None)
qed

lemma handleDragEnd_no_request:
  assumes "handleDragEnd event page = Inr (newOrder, None)"
  shows "newOrder = page"
  using assms
  by (auto simp: handleDragEnd_def Let_def split: option.splits if_splits)













section \<open>At most one current item\<close>

text \<open>
  What the routes keep: \<^verbatim>\<open>next\<close>, \<^verbatim>\<open>previous\<close> and \<^verbatim>\<open>clear-current\<close>
  leave at most one current item on every schedule; creating and deleting never add a
  second one; \<^verbatim>\<open>set-current\<close> and the update route do not either as long as the
  stored ids are pairwise distinct, because they set the flag by comparing ids.
\<close>

lemma current_count_flag_at:
  "current_count (map_index_from j (\<lambda>i s. s\<lparr>is_current := (i = k)\<rparr>) xs)
     = (if j \<le> k \<and> k < j + int (length xs) then 1 else 0)"
proof (induction xs arbitrary: j)
  case Nil
  show ?case by (simp add: current_count_def)
next
  case (Cons x xs)
  show ?case using Cons.IH [of "j + 1"] by (auto simp: current_count_def)
qed

lemma current_count_next: "current_count (control_next xs) \<le> 1"
  by (simp add: control_next_def map_index_def Let_def current_count_flag_at)

lemma current_count_previous: "current_count (control_previous xs) \<le> 1"
  by (simp add: control_previous_def map_index_def Let_def current_count_flag_at)

lemma current_count_clear: "current_count (control_clear_current xs) = 0"
  by (induction xs) (simp_all add: control_clear_current_def current_count_def)

lemma current_count_flag_absent:
  assumes "sid \<notin> set (map item_id xs)"
  shows "current_count (map (\<lambda>s. s\<lparr>is_current := (item_id s = sid)\<rparr>) xs) = 0"
proof -
  have "filter is_current (map (\<lambda>s. s\<lparr>is_current := (item_id s = sid)\<rparr>) xs) = []"
    using assms by (auto simp: filter_empty_conv)
  then show ?thesis by (simp only: current_count_def list.size)
qed

lemma current_count_set_current:
  assumes "distinct (map item_id xs)"
  shows "current_count (snd (control_set_current sid xs)) \<le> max 1 (current_count xs)"
proof (cases "sid \<in> set (map item_id xs)")
  case True
  then show ?thesis
    using current_count_flag_by_id [OF assms True]
    by (simp add: control_set_current_def list_ex_item_id)
next
  case False
  then show ?thesis by (simp add: control_set_current_def list_ex_item_id)
qed

lemma current_count_post:
  assumes "current_count xs \<le> 1"
  shows "current_count (snd (post_schedule now body xs)) \<le> 1"
proof -
  have "current_count (map (\<lambda>x. x\<lparr>is_current := False\<rparr>) xs) = 0"
    by (induction xs) (simp_all add: current_count_def)
  then show ?thesis using assms
    by (auto simp: post_schedule_def Let_def current_count_def split: option.splits)
qed

lemma current_count_delete: "current_count (delete_schedule sid xs) \<le> current_count xs"
proof -
  have "filter is_current (filter (\<lambda>s. item_id s \<noteq> sid) xs)
      = filter (\<lambda>s. item_id s \<noteq> sid) (filter is_current xs)"
    by (induction xs) auto
  moreover have "length (filter (\<lambda>s. item_id s \<noteq> sid) (filter is_current xs))
      \<le> length (filter is_current xs)"
    by (rule length_filter_le)
  ultimately show ?thesis by (simp only: delete_schedule_def current_count_def)
qed

lemma current_count_update:
  assumes "\<not> is_current y"
  shows "current_count (xs[i := y]) \<le> current_count xs"
  using assms
proof (induction xs arbitrary: i)
  case Nil
  then show ?case by simp
next
  case (Cons x xs)
  then show ?case by (cases i) (auto simp: current_count_def le_SucI)
qed

lemma current_count_put:
  assumes "distinct (map item_id xs)"
  shows "current_count (snd (put_schedule sid body xs)) \<le> max 1 (current_count xs)"
proof (cases "findIndex (\<lambda>s. item_id s = sid) xs = - 1")
  case True
  then show ?thesis by (simp add: put_schedule_def)
next
  case False
  show ?thesis
  proof (cases "is_current (merge_body (xs ! nat (findIndex (\<lambda>s. item_id s = sid) xs)) body)")
    case c: True
    have "current_count (map (\<lambda>x. x\<lparr>is_current := (item_id x = sid)\<rparr>) xs) \<le> 1"
      using current_count_flag_by_id [OF assms, of sid] current_count_flag_absent [of sid xs]
      by (cases "sid \<in> set (map item_id xs)") simp_all
    then show ?thesis using False c by (simp add: put_schedule_def Let_def)
  next
    case c: False
    then show ?thesis
      using False current_count_update [OF c, of xs]
      by (simp add: put_schedule_def Let_def le_max_iff_disj)
  qed
qed

text \<open>Nothing keeps the stored ids distinct: two items created at the same clock
  reading share an id, and the update route copies an \<^verbatim>\<open>id\<close> key of the body.\<close>

lemma String_of_nat_last: "last (String_of_nat n) = digit_char (n mod 10)"
  by (subst String_of_nat.simps) simp

lemma new_id_clocks_differ: "new_id clock_a \<noteq> new_id clock_b"
proof
  assume "new_id clock_a = new_id clock_b"
  then have "last (String_of_nat clock_a) = last (String_of_nat clock_b)"
    by (simp add: new_id_def)
  then have "digit_char 0 = digit_char 1"
    by (simp add: String_of_nat_last clock_a_def clock_b_def)
  then have "(of_char (digit_char 0) :: nat) = of_char (digit_char 1)" by simp
  then show False by (simp add: digit_char_def)
qed

lemma created_same_clock_ids:
  "map item_id created_same_clock = [new_id clock_a, new_id clock_a]"
  by (simp add: created_same_clock_def post_schedule_def empty_body_def Let_def)

lemma created_then_edited_ids:
  "map item_id created_then_edited = [new_id clock_a, new_id clock_a]"
  using new_id_clocks_differ
  by (simp add: created_then_edited_def post_schedule_def put_schedule_def merge_body_def
      empty_body_def Let_def)

lemma set_current_all_same_id:
  assumes "map item_id xs = [sid, sid]"
  shows "fst (control_set_current sid xs) = Inr ()
    \<and> current_count (snd (control_set_current sid xs)) = 2"
proof -
  obtain x y where xs: "xs = [x, y]" and "item_id x = sid" and "item_id y = sid"
    using assms by auto
  then show ?thesis by (simp add: control_set_current_def current_count_def)
qed

text \<open>
  Claim C1 states that after every sequence of mutations at most one item is current.
  The server does not keep this: from the empty schedule, two items created at the same
  clock reading, or two items of which the second is updated with the id of the first,
  are both made current by one \<^verbatim>\<open>set-current\<close> request, which succeeds and leaves
  two current items.
\<close>

theorem C1_two_current_items:
  "fst (control_set_current (new_id clock_a) created_same_clock) = Inr ()
   \<and> current_count (snd (control_set_current (new_id clock_a) created_same_clock)) = 2
   \<and> fst (control_set_current (new_id clock_a) created_then_edited) = Inr ()
   \<and> current_count (snd (control_set_current (new_id clock_a) created_then_edited)) = 2"
  using set_current_all_same_id [OF created_same_clock_ids]
    set_current_all_same_id [OF created_then_edited_ids]
  by simp

end
